theory Spec2Isabelle
  imports Main "HOL-Library.Sublist"
begin

section \<open>Python values\<close>

text \<open>
  The script \<^verbatim>\<open>objc-stub-fixer.py\<close> runs inside a disassembler, whose \<^verbatim>\<open>Document\<close>,
  \<^verbatim>\<open>Segment\<close> and \<^verbatim>\<open>Instruction\<close> objects it only calls. Those objects are records of
  the methods the script uses. A Python \<^verbatim>\<open>str\<close> is a \<^typ>\<open>string\<close>: disassembly text
  (renderings, operands, symbol names) is ASCII, one \<^typ>\<open>char\<close> per character, and a
  \<^typ>\<open>char\<close> from \<open>0x80\<close> on is treated as a character that is neither blank nor a
  digit. The text that \<^verbatim>\<open>bytearray.decode()\<close> returns is kept as the UTF-8 bytes it was
  decoded from: the script only tests it for emptiness and appends \<^verbatim>\<open>"()"\<close> to it.
  Python integers are \<^typ>\<open>int\<close>.

  An exception is a value of \<open>exc\<close>, and a computation that may raise returns
  \<open>exc + 'a\<close> with \<open>Inl\<close> the exception raised. All of them are subclasses of
  \<^verbatim>\<open>Exception\<close>. \<open>HostError\<close> stands for an exception raised by a method of the host.
\<close>

datatype exc =
  AttributeError | TypeError | ValueError | IndexError | UnicodeDecodeError | HostError

definition bind_exc :: "exc + 'a \<Rightarrow> ('a \<Rightarrow> exc + 'b) \<Rightarrow> exc + 'b" where
  "bind_exc r f = (case r of Inl e \<Rightarrow> Inl e | Inr v \<Rightarrow> f v)"

subsection \<open>The string methods the script calls\<close>

text \<open>\<^verbatim>\<open>str(x)\<close> of a value that is a string or \<^verbatim>\<open>None\<close>.\<close>

definition py_str :: "string option \<Rightarrow> string" where
  "py_str v = (case v of None \<Rightarrow> ''None'' | Some s \<Rightarrow> s)"

text \<open>\<^verbatim>\<open>s.split(sep)\<close> for a separator of one character: never an empty list.\<close>

fun py_split :: "char \<Rightarrow> string \<Rightarrow> string list" where
  "py_split sep [] = [[]]"
| "py_split sep (c # cs) =
     (if c = sep then [] # py_split sep cs
      else (case py_split sep cs of [] \<Rightarrow> [[c]] | p # ps \<Rightarrow> (c # p) # ps))"

text \<open>\<^verbatim>\<open>xs[i]\<close> for an index that is not negative: out of range raises IndexError.\<close>

definition py_index :: "'a list \<Rightarrow> nat \<Rightarrow> exc + 'a" where
  "py_index xs i = (if i < length xs then Inr (xs ! i) else Inl IndexError)"

text \<open>
  \<^verbatim>\<open>s.strip()\<close> removes the characters of \<^verbatim>\<open>str.isspace\<close> at both ends: in ASCII these
  are \<open>0x09\<close> to \<open>0x0D\<close>, \<open>0x1C\<close> to \<open>0x1F\<close> and the space.
\<close>

definition str_isspace :: "char \<Rightarrow> bool" where
  "str_isspace c = (let n = (of_char c :: nat) in (9 \<le> n \<and> n \<le> 13) \<or> (28 \<le> n \<and> n \<le> 32))"

definition py_strip :: "string \<Rightarrow> string" where
  "py_strip s = dropWhile str_isspace (rev (dropWhile str_isspace (rev s)))"

subsection \<open>\<^verbatim>\<open>int(s, 16)\<close>\<close>

text \<open>
  \<^verbatim>\<open>int(s, 16)\<close> accepts blanks (\<open>0x09\<close> to \<open>0x0D\<close> and the space) around the numeral, one
  sign, the prefix \<^verbatim>\<open>0x\<close> or \<^verbatim>\<open>0X\<close>, and single underscores between the digits and
  after the prefix. Anything else raises ValueError.
\<close>

definition int_isspace :: "char \<Rightarrow> bool" where
  "int_isspace c = (let n = (of_char c :: nat) in (9 \<le> n \<and> n \<le> 13) \<or> n = 32)"

definition hex_digit :: "char \<Rightarrow> nat option" where
  "hex_digit c =
     (let n = (of_char c :: nat) in
      if 48 \<le> n \<and> n \<le> 57 then Some (n - 48)
      else if 97 \<le> n \<and> n \<le> 102 then Some (n - 87)
      else if 65 \<le> n \<and> n \<le> 70 then Some (n - 55)
      else None)"

text \<open>
  The scan over digits and underscores: \<open>prev\<close> says that the last character read was an
  underscore, \<open>digits\<close> counts the digits, \<open>v\<close> is the value so far. It stops at the
  first character that is neither, and fails on two underscores in a row.
\<close>

fun scan_hex :: "bool \<Rightarrow> nat \<Rightarrow> int \<Rightarrow> string \<Rightarrow> (bool \<times> nat \<times> int \<times> string) option" where
  "scan_hex prev digits v [] = Some (prev, digits, v, [])"
| "scan_hex prev digits v (c # cs) =
     (if c = CHR ''_'' then (if prev then None else scan_hex True digits v cs)
      else (case hex_digit c of
              Some d \<Rightarrow> scan_hex False (Suc digits) (16 * v + int d) cs
            | None \<Rightarrow> Some (prev, digits, v, c # cs)))"

definition skip_sign :: "string \<Rightarrow> int \<times> string" where
  "skip_sign s =
     (case s of
        [] \<Rightarrow> (1, s)
      | c # r \<Rightarrow> if c = CHR ''+'' then (1, r) else if c = CHR ''-'' then (- 1, r) else (1, s))"

definition skip_0x :: "string \<Rightarrow> string" where
  "skip_0x s =
     (case s of
        z # x # r \<Rightarrow>
          if z = CHR ''0'' \<and> (x = CHR ''x'' \<or> x = CHR ''X'')
          then (case r of [] \<Rightarrow> r | u # r' \<Rightarrow> if u = CHR ''_'' then r' else r)
          else s
      | _ \<Rightarrow> s)"

definition py_int16 :: "string \<Rightarrow> exc + int" where
  "py_int16 s =
     (let (sign, s2) = skip_sign (dropWhile int_isspace s);
          s3 = skip_0x s2
      in if s3 \<noteq> [] \<and> hd s3 = CHR ''_'' then Inl ValueError
         else (case scan_hex False 0 0 s3 of
                 None \<Rightarrow> Inl ValueError
               | Some (prev, digits, v, rest) \<Rightarrow>
                   if prev \<or> digits = 0 \<or> \<not> list_all int_isspace rest then Inl ValueError
                   else Inr (sign * v)))"

subsection \<open>\<^verbatim>\<open>bytearray.decode()\<close>\<close>

text \<open>
  The default codec is strict UTF-8. A byte sequence decodes exactly when it is well
  formed: no stray continuation byte, no truncated or overlong sequence, no surrogate,
  nothing above \<open>U+10FFFF\<close>. Otherwise \<^verbatim>\<open>decode\<close> raises UnicodeDecodeError.
\<close>

definition cont :: "int \<Rightarrow> bool" where
  "cont b = (0x80 \<le> b \<and> b \<le> 0xBF)"

fun utf8_ok :: "int list \<Rightarrow> bool" where
  "utf8_ok [] = True"
| "utf8_ok (b # bs) =
     (if 0 \<le> b \<and> b < 0x80 then utf8_ok bs
      else if 0xC2 \<le> b \<and> b \<le> 0xDF then
        (case bs of c1 # r \<Rightarrow> cont c1 \<and> utf8_ok r | _ \<Rightarrow> False)
      else if 0xE0 \<le> b \<and> b \<le> 0xEF then
        (case bs of
           c1 # c2 # r \<Rightarrow>
             cont c1 \<and> cont c2 \<and> (b = 0xE0 \<longrightarrow> 0xA0 \<le> c1) \<and> (b = 0xED \<longrightarrow> c1 \<le> 0x9F)
             \<and> utf8_ok r
         | _ \<Rightarrow> False)
      else if 0xF0 \<le> b \<and> b \<le> 0xF4 then
        (case bs of
           c1 # c2 # c3 # r \<Rightarrow>
             cont c1 \<and> cont c2 \<and> cont c3 \<and> (b = 0xF0 \<longrightarrow> 0x90 \<le> c1)
             \<and> (b = 0xF4 \<longrightarrow> c1 \<le> 0x8F) \<and> utf8_ok r
         | _ \<Rightarrow> False)
      else False)"

definition decode :: "int list \<Rightarrow> exc + string" where
  "decode bs = (if utf8_ok bs then Inr (map char_of bs) else Inl UnicodeDecodeError)"

section \<open>The host's objects\<close>

text \<open>
  \<^verbatim>\<open>Instruction\<close>: its rendering and its formatted operands, \<^verbatim>\<open>None\<close> where the
  instruction has no operand of that index.
\<close>

record instruction =
  getInstructionString :: string
  getFormattedArgument :: "int \<Rightarrow> string option"

text \<open>\<^verbatim>\<open>Segment\<close>: the instruction at an address, if any, and the addresses that have a name.\<close>

record segment =
  getInstructionAtAddress :: "int \<Rightarrow> instruction option"
  getNamedAddresses :: "int list"

text \<open>
  \<^verbatim>\<open>Document\<close>. A read returns an integer or raises; a host that answers \<^verbatim>\<open>False\<close>
  for an unmapped address answers \<open>0\<close> here, since the script treats both alike
  (\<^verbatim>\<open>False == 0\<close>, and \<^verbatim>\<open>False\<close> is falsy). \<open>getNameAtAddress\<close> is the symbol
  table, which \<^verbatim>\<open>setNameAtAddress\<close> changes; \<open>setNameFault\<close> is the exception, if any,
  with which the host refuses a new name.
\<close>

record document =
  getCurrentSegment :: "segment option"
  getSegmentByName :: "string \<Rightarrow> segment option"
  readByte :: "int \<Rightarrow> exc + int"
  readUInt64LE :: "int \<Rightarrow> exc + int"
  getNameAtAddress :: "int \<Rightarrow> string option"
  setNameFault :: "int \<Rightarrow> string \<Rightarrow> exc option"

text \<open>
  Modelled from the spec: \<^verbatim>\<open>set_name_at(address, text)\<close>, the host's mutation of the
  symbol table, is not part of the script. It gives the address its new name and leaves
  every other name alone, unless the host raises.
\<close>

definition setNameAtAddress :: "document \<Rightarrow> int \<Rightarrow> string \<Rightarrow> exc + document" where
  "setNameAtAddress doc address name =
     (case setNameFault doc address name of
        Some e \<Rightarrow> Inl e
      | None \<Rightarrow> Inr (doc\<lparr>getNameAtAddress := (getNameAtAddress doc)(address \<mapsto> name)\<rparr>))"

section \<open>The script\<close>

subsection \<open>\<^verbatim>\<open>read_c_string\<close>\<close>

text \<open>
  The loop \<^verbatim>\<open>while True\<close> has no bound, so it is a partial function: \<open>None\<close> is a run
  that never ends. It uses the document through \<^verbatim>\<open>doc.readByte\<close> only, which is its
  first argument. \<^verbatim>\<open>result.append(byte)\<close> raises ValueError outside \<open>range(256)\<close>.
\<close>

partial_function (option) read_loop ::
  "(int \<Rightarrow> exc + int) \<Rightarrow> int \<Rightarrow> int list \<Rightarrow> (exc + int list) option" where
  "read_loop rd address result =
     (case rd address of
        Inl e \<Rightarrow> Some (Inl e)
      | Inr byte \<Rightarrow>
          if byte = 0 then Some (Inr result)
          else if 0 \<le> byte \<and> byte < 256 then read_loop rd (address + 1) (result @ [byte])
          else Some (Inl ValueError))"

declare read_loop.simps [code]

definition read_c_string :: "document \<Rightarrow> int \<Rightarrow> (exc + string) option" where
  "read_c_string doc address =
     (case read_loop (readByte doc) address [] of
        None \<Rightarrow> None
      | Some (Inl e) \<Rightarrow> Some (Inl e)
      | Some (Inr result) \<Rightarrow> Some (decode result))"

subsection \<open>\<^verbatim>\<open>is_objc_stub\<close>\<close>

definition expected_instructions :: "string list" where
  "expected_instructions = [''adrp'', ''ldr'', ''adrp'', ''ldr'', ''br'']"

text \<open>
  \<^verbatim>\<open>doc.getCurrentSegment()\<close> may be \<^verbatim>\<open>None\<close>, and calling a method of \<^verbatim>\<open>None\<close> raises
  AttributeError. \<^verbatim>\<open>x.startswith(p)\<close> is \<^term>\<open>prefix p x\<close>.
\<close>

definition is_objc_stub :: "document \<Rightarrow> int \<Rightarrow> exc + bool" where
  "is_objc_stub doc address =
     (case getCurrentSegment doc of
        None \<Rightarrow> Inl AttributeError
      | Some seg \<Rightarrow>
          (let instructions = map (\<lambda>i. getInstructionAtAddress seg (address + i * 4)) [0, 1, 2, 3, 4]
           in if list_ex (\<lambda>inst. inst = None) instructions then Inr False
              else (let instruction_strings = map (\<lambda>inst. getInstructionString (the inst)) instructions
                    in Inr (list_all (\<lambda>(inst, expected). prefix expected inst)
                              (zip instruction_strings expected_instructions)))))"

subsection \<open>\<^verbatim>\<open>parse_offset\<close> and \<^verbatim>\<open>get_page_address\<close>\<close>

text \<open>
  Each is a \<^verbatim>\<open>try\<close> block and its handler: the handler turns the exceptions it names
  into \<^verbatim>\<open>None\<close>, and any other exception leaves the function.
\<close>

definition parse_offset_try :: "string \<Rightarrow> exc + int" where
  "parse_offset_try ldr_inst_offset_str =
     bind_exc (py_index (py_split CHR ''['' ldr_inst_offset_str) 1) (\<lambda>inner.
     bind_exc (py_index (py_split CHR '']'' inner) 0) (\<lambda>inside.
     let parts = py_split CHR '','' inside in
     bind_exc (py_index parts 1) (\<lambda>part.
     py_int16 (drop 1 (py_strip part)))))"

definition parse_offset :: "string \<Rightarrow> exc + int option" where
  "parse_offset ldr_inst_offset_str =
     (case parse_offset_try ldr_inst_offset_str of
        Inr offset \<Rightarrow> Inr (Some offset)
      | Inl e \<Rightarrow> if e = IndexError \<or> e = ValueError then Inr None else Inl e)"

text \<open>\<^verbatim>\<open>None[1:]\<close> raises TypeError, which the handler does not name.\<close>

definition get_page_address_try :: "instruction \<Rightarrow> exc + int" where
  "get_page_address_try adrp_inst =
     (case getFormattedArgument adrp_inst 1 of
        None \<Rightarrow> Inl TypeError
      | Some arg \<Rightarrow> py_int16 (drop 1 arg))"

definition get_page_address :: "instruction \<Rightarrow> exc + int option" where
  "get_page_address adrp_inst =
     (case get_page_address_try adrp_inst of
        Inr page_address \<Rightarrow> Inr (Some page_address)
      | Inl e \<Rightarrow> if e = ValueError then Inr None else Inl e)"

subsection \<open>\<^verbatim>\<open>get_selector\<close>\<close>

text \<open>
  The end of \<^verbatim>\<open>get_selector\<close>, from the address of the pointer cell on: the cell is
  read, and a pointer that is not zero is followed to the string.
\<close>

definition selector_at :: "document \<Rightarrow> int \<Rightarrow> (exc + string option) option" where
  "selector_at doc selector_addr =
     (case readUInt64LE doc selector_addr of
        Inl e \<Rightarrow> Some (Inl e)
      | Inr selector_ptr \<Rightarrow>
          if selector_ptr \<noteq> 0
          then map_option (map_sum id Some) (read_c_string doc selector_ptr)
          else Some (Inr None))"

definition get_selector :: "document \<Rightarrow> int \<Rightarrow> (exc + string option) option" where
  "get_selector doc address =
     (case getCurrentSegment doc of
        None \<Rightarrow> Some (Inl AttributeError)
      | Some seg \<Rightarrow>
          (case (getInstructionAtAddress seg address, getInstructionAtAddress seg (address + 4)) of
             (Some adrp_inst, Some ldr_inst) \<Rightarrow>
               (case get_page_address adrp_inst of
                  Inl e \<Rightarrow> Some (Inl e)
                | Inr page \<Rightarrow>
                    (case parse_offset (py_str (getFormattedArgument ldr_inst 1)) of
                       Inl e \<Rightarrow> Some (Inl e)
                     | Inr offset \<Rightarrow>
                         (case (page, offset) of
                            (Some p, Some off) \<Rightarrow> selector_at doc (p + off)
                          | _ \<Rightarrow> Some (Inr None))))
           | _ \<Rightarrow> Some (Inr None)))"

subsection \<open>\<^verbatim>\<open>rename_objc_stubs\<close>\<close>

text \<open>
  The body of the \<^verbatim>\<open>try\<close> statement of the loop. \<open>Inr None\<close> is one of its two
  \<^verbatim>\<open>continue\<close>s (not a stub, or no selector), \<open>Inr (Some selector)\<close> falls through to the
  renaming.
\<close>

definition try_analysis :: "document \<Rightarrow> int \<Rightarrow> (exc + string option) option" where
  "try_analysis doc procedure_address =
     (case is_objc_stub doc procedure_address of
        Inl e \<Rightarrow> Some (Inl e)
      | Inr stub \<Rightarrow>
          if \<not> stub then Some (Inr None)
          else (case get_selector doc procedure_address of
                  None \<Rightarrow> None
                | Some (Inl e) \<Rightarrow> Some (Inl e)
                | Some (Inr None) \<Rightarrow> Some (Inr None)
                | Some (Inr (Some selector)) \<Rightarrow>
                    if selector = [] then Some (Inr None) else Some (Inr (Some selector))))"

text \<open>
  One round of the loop, on the counter \<^verbatim>\<open>renamed_functions\<close> and the document. The
  handler \<^verbatim>\<open>except Exception\<close> covers the analysis only: reading the name comes before
  the \<^verbatim>\<open>try\<close> and the renaming after it. The messages printed are left out.
\<close>

definition rename_one :: "nat \<times> document \<Rightarrow> int \<Rightarrow> (exc + nat \<times> document) option" where
  "rename_one st procedure_address =
     (let (renamed_functions, doc) = st in
      case getNameAtAddress doc procedure_address of
        None \<Rightarrow> Some (Inl AttributeError)
      | Some procedure_name \<Rightarrow>
          if \<not> prefix ''sub_'' procedure_name then Some (Inr st)
          else (case try_analysis doc procedure_address of
                  None \<Rightarrow> None
                | Some (Inl e) \<Rightarrow> Some (Inr st)
                | Some (Inr None) \<Rightarrow> Some (Inr st)
                | Some (Inr (Some selector)) \<Rightarrow>
                    (case setNameAtAddress doc procedure_address (selector @ ''()'') of
                       Inl e \<Rightarrow> Some (Inl e)
                     | Inr doc' \<Rightarrow> Some (Inr (renamed_functions + 1, doc')))))"

fun rename_loop :: "nat \<times> document \<Rightarrow> int list \<Rightarrow> (exc + nat \<times> document) option" where
  "rename_loop st [] = Some (Inr st)"
| "rename_loop st (procedure_address # rest) =
     (case rename_one st procedure_address of
        None \<Rightarrow> None
      | Some (Inl e) \<Rightarrow> Some (Inl e)
      | Some (Inr st') \<Rightarrow> rename_loop st' rest)"

text \<open>
  The result is the count printed at the end, and the document. Without a segment
  \<^verbatim>\<open>__TEXT\<close> no count is printed.
\<close>

definition rename_objc_stubs :: "document \<Rightarrow> (exc + nat option \<times> document) option" where
  "rename_objc_stubs doc =
     (case getSegmentByName doc ''__TEXT'' of
        None \<Rightarrow> Some (Inr (None, doc))
      | Some seg \<Rightarrow>
          (case rename_loop (0, doc) (getNamedAddresses seg) of
             None \<Rightarrow> None
           | Some (Inl e) \<Rightarrow> Some (Inl e)
           | Some (Inr (renamed_functions, doc')) \<Rightarrow> Some (Inr (Some renamed_functions, doc'))))"

subsection \<open>What the scan is expected to leave behind\<close>

text \<open>
  The selector that the scan finds for a named address: the address is a candidate when
  its name begins with \<^verbatim>\<open>sub_\<close>, and it is resolved when the analysis returns a
  selector that is not empty.
\<close>

definition resolved :: "document \<Rightarrow> int \<Rightarrow> string option" where
  "resolved doc a =
     (case getNameAtAddress doc a of
        None \<Rightarrow> None
      | Some name \<Rightarrow>
          if prefix ''sub_'' name
          then (case try_analysis doc a of Some (Inr (Some selector)) \<Rightarrow> Some selector | _ \<Rightarrow> None)
          else None)"

text \<open>
  The symbol table in which every resolved address of \<open>addrs\<close> is named after its
  selector, followed by \<^verbatim>\<open>()\<close>, and every other name is as it was.
\<close>

definition renamed :: "document \<Rightarrow> int list \<Rightarrow> int \<Rightarrow> string option" where
  "renamed doc addrs a =
     (if a \<in> set addrs
      then (case resolved doc a of
              Some selector \<Rightarrow> Some (selector @ ''()'')
            | None \<Rightarrow> getNameAtAddress doc a)
      else getNameAtAddress doc a)"



section \<open>Sample documents\<close>

text \<open>
  Documents on which the theorems below are run. An instruction is given by its rendering
  and the list of its operands; memory is a table of bytes, and an address outside the
  table makes the host raise.
\<close>

definition mk_inst :: "string \<Rightarrow> string list \<Rightarrow> instruction" where
  "mk_inst rendering ops =
     \<lparr>getInstructionString = rendering,
      getFormattedArgument = (\<lambda>i. if 0 \<le> i \<and> nat i < length ops then Some (ops ! nat i) else None)\<rparr>"

text \<open>Five instructions of the stub shape at \<open>base\<close>, the first two as given.\<close>

definition stub_at :: "int \<Rightarrow> instruction \<Rightarrow> instruction \<Rightarrow> int \<Rightarrow> instruction option" where
  "stub_at base adrp_inst ldr_inst a =
     (if a = base then Some adrp_inst
      else if a = base + 4 then Some ldr_inst
      else if a = base + 8 then Some (mk_inst ''adrp x16, #0x200000'' [''x16'', ''#0x200000''])
      else if a = base + 12 then Some (mk_inst ''ldr x16, [x16, #0x8]'' [''x16'', ''[x16, #0x8]''])
      else if a = base + 16 then Some (mk_inst ''br x16'' [''x16''])
      else None)"

text \<open>
  Modelled from the spec: \<^verbatim>\<open>read_uint64_le\<close>, the host's read of an 8-byte little-endian
  unsigned integer, is not part of the script. Here it is put together from eight byte
  reads.
\<close>

definition le64 :: "(int \<Rightarrow> exc + int) \<Rightarrow> int \<Rightarrow> exc + int" where
  "le64 rd a =
     foldr (\<lambda>k r. bind_exc (rd (a + k)) (\<lambda>b. bind_exc r (\<lambda>v. Inr (b + 256 * v))))
       [0, 1, 2, 3, 4, 5, 6, 7] (Inr 0)"

text \<open>
  The cell at \<open>0x100018\<close> points to \<open>0x300000\<close>, where the bytes are \<^verbatim>\<open>foo\0\<close>; the cell
  at \<open>0x100020\<close> points to \<open>0x300004\<close>, where they are \<^verbatim>\<open>bar\0baz\0\<close>; the cell at
  \<open>0x100028\<close> holds zero.
\<close>

definition image :: "(int \<times> int) list" where
  "image =
     zip [0x100018, 0x100019, 0x10001A, 0x10001B, 0x10001C, 0x10001D, 0x10001E, 0x10001F]
         [0x00, 0x00, 0x30, 0, 0, 0, 0, 0] @
     zip [0x100020, 0x100021, 0x100022, 0x100023, 0x100024, 0x100025, 0x100026, 0x100027]
         [0x04, 0x00, 0x30, 0, 0, 0, 0, 0] @
     zip [0x100028, 0x100029, 0x10002A, 0x10002B, 0x10002C, 0x10002D, 0x10002E, 0x10002F]
         [0, 0, 0, 0, 0, 0, 0, 0] @
     zip [0x300000, 0x300001, 0x300002, 0x300003] [0x66, 0x6F, 0x6F, 0] @
     zip [0x300004, 0x300005, 0x300006, 0x300007, 0x300008, 0x300009, 0x30000A, 0x30000B]
         [0x62, 0x61, 0x72, 0, 0x62, 0x61, 0x7A, 0]"

definition image_byte :: "int \<Rightarrow> exc + int" where
  "image_byte a = (case map_of image a of None \<Rightarrow> Inl HostError | Some b \<Rightarrow> Inr b)"

text \<open>
  A document with one stub, at \<open>0x1000\<close> and named \<^verbatim>\<open>sub_1000\<close>, whose first two
  instructions have the operands given.
\<close>

definition stub_seg :: "string list \<Rightarrow> string list \<Rightarrow> segment" where
  "stub_seg adrp_ops ldr_ops =
     \<lparr>getInstructionAtAddress = stub_at 0x1000 (mk_inst ''adrp'' adrp_ops) (mk_inst ''ldr'' ldr_ops),
      getNamedAddresses = [0x1000]\<rparr>"

definition stub_doc :: "string list \<Rightarrow> string list \<Rightarrow> document" where
  "stub_doc adrp_ops ldr_ops =
     \<lparr>getCurrentSegment = Some (stub_seg adrp_ops ldr_ops),
      getSegmentByName = (\<lambda>name. if name = ''__TEXT'' then Some (stub_seg adrp_ops ldr_ops) else None),
      readByte = image_byte,
      readUInt64LE = le64 image_byte,
      getNameAtAddress = [0x1000 \<mapsto> ''sub_1000''],
      setNameFault = (\<lambda>a name. None)\<rparr>"

text \<open>
  A document with four named addresses: a stub for \<^verbatim>\<open>foo\<close>, a stub whose first
  instruction has one operand only, a stub for \<^verbatim>\<open>bar\<close>, and a stub that already has
  a name of its own.
\<close>

definition batch_seg :: segment where
  "batch_seg =
     \<lparr>getInstructionAtAddress =
        stub_at 0x1000 (mk_inst ''adrp x8, #0x100000'' [''x8'', ''#0x100000''])
                       (mk_inst ''ldr x1, [x8, #0x18]'' [''x1'', ''[x8, #0x18]'']) ++
        stub_at 0x2000 (mk_inst ''adrp x8'' [''x8''])
                       (mk_inst ''ldr x1, [x8, #0x18]'' [''x1'', ''[x8, #0x18]'']) ++
        stub_at 0x3000 (mk_inst ''adrp x8, #0x100000'' [''x8'', ''#0x100000''])
                       (mk_inst ''ldr x1, [x8, #0x20]'' [''x1'', ''[x8, #0x20]'']) ++
        stub_at 0x4000 (mk_inst ''adrp x8, #0x100000'' [''x8'', ''#0x100000''])
                       (mk_inst ''ldr x1, [x8, #0x18]'' [''x1'', ''[x8, #0x18]'']),
      getNamedAddresses = [0x1000, 0x2000, 0x3000, 0x4000]\<rparr>"

definition batch_names :: "int \<Rightarrow> string option" where
  "batch_names =
     [0x1000 \<mapsto> ''sub_1000'', 0x2000 \<mapsto> ''sub_2000'', 0x3000 \<mapsto> ''sub_3000'',
      0x4000 \<mapsto> ''main'']"

definition batch_doc :: document where
  "batch_doc =
     \<lparr>getCurrentSegment = Some batch_seg,
      getSegmentByName = (\<lambda>name. if name = ''__TEXT'' then Some batch_seg else None),
      readByte = image_byte,
      readUInt64LE = le64 image_byte,
      getNameAtAddress = batch_names,
      setNameFault = (\<lambda>a name. None)\<rparr>"




text \<open>A memory that holds the byte \<open>0xFF\<close> at address \<open>0\<close> and zero everywhere else.\<close>

definition bad_utf8_doc :: document where
  "bad_utf8_doc = batch_doc\<lparr>readByte := (\<lambda>a. if a = 0 then Inr 0xFF else Inr 0)\<rparr>"

text \<open>A memory without a zero byte: every read returns \<open>1\<close>.\<close>

definition ones_doc :: document where
  "ones_doc = batch_doc\<lparr>readByte := (\<lambda>a. Inr 1)\<rparr>"

section \<open>The stub pattern matcher\<close>

lemma all_less_5: "(\<forall>k<5. P k) = (P 0 \<and> P 1 \<and> P 2 \<and> P 3 \<and> P (4::nat))"
proof
  assume "\<forall>k<5. P k" then show "P 0 \<and> P 1 \<and> P 2 \<and> P 3 \<and> P 4" by simp
next
  assume h: "P 0 \<and> P 1 \<and> P 2 \<and> P 3 \<and> P 4"
  show "\<forall>k<5. P k"
  proof (intro allI impI)
    fix k :: nat assume "k < 5"
    then have "k = 0 \<or> k = 1 \<or> k = 2 \<or> k = 3 \<or> k = 4" by arith
    with h show "P k" by auto
  qed
qed

text \<open>
  C1. Given the segment that fetches the instructions, \<open>is_objc_stub\<close> returns
  \<^verbatim>\<open>True\<close> if and only if each of the five fetches at \<open>address\<close>, \<open>address + 4\<close>, ...,
  \<open>address + 16\<close> yields an instruction and the rendering of the \<open>k\<close>-th one begins with
  the \<open>k\<close>-th of \<^verbatim>\<open>adrp, ldr, adrp, ldr, br\<close>; otherwise it returns \<^verbatim>\<open>False\<close>.
\<close>

theorem is_objc_stub_window:
  assumes "getCurrentSegment doc = Some seg"
  shows "is_objc_stub doc address =
           Inr (\<forall>k<5. \<exists>inst. getInstructionAtAddress seg (address + 4 * int k) = Some inst
                          \<and> prefix (expected_instructions ! k) (getInstructionString inst))"
  using assms
  by (auto simp add: is_objc_stub_def all_less_5 expected_instructions_def mult.commute)

theorem is_objc_stub_window_witness:
  "getCurrentSegment batch_doc = Some batch_seg
   \<and> is_objc_stub batch_doc 0x1000 = Inr True
   \<and> is_objc_stub batch_doc 0x1004 = Inr False
   \<and> (\<exists>inst. getInstructionAtAddress batch_seg (0x1000 + 4 * int 4) = Some inst
               \<and> prefix (expected_instructions ! 4) (getInstructionString inst))"
proof -
  have seg: "getCurrentSegment batch_doc = Some batch_seg" by (simp add: batch_doc_def)
  have t: "is_objc_stub batch_doc 0x1000 = Inr True" by code_simp
  have f: "is_objc_stub batch_doc 0x1004 = Inr False" by code_simp
  from is_objc_stub_window [OF seg, of "0x1000"] t
  have "\<forall>k<5. \<exists>inst. getInstructionAtAddress batch_seg (0x1000 + 4 * int k) = Some inst
                  \<and> prefix (expected_instructions ! k) (getInstructionString inst)"
    by simp
  then have "\<exists>inst. getInstructionAtAddress batch_seg (0x1000 + 4 * int 4) = Some inst
                  \<and> prefix (expected_instructions ! 4) (getInstructionString inst)"
    by (simp add: all_less_5)
  with seg t f show ?thesis by blast
qed

section \<open>The string reader\<close>

lemma read_loop_bytes:
  assumes "\<forall>i<length bs. rd (a + int i) = Inr (bs ! i) \<and> 0 < bs ! i \<and> bs ! i < 256"
    and "rd (a + int (length bs)) = Inr 0"
  shows "read_loop rd a acc = Some (Inr (acc @ bs))"
  using assms
proof (induction bs arbitrary: a acc)
  case Nil
  then show ?case by (simp add: read_loop.simps)
next
  case (Cons b bs)
  from Cons.prems(1) have b: "rd a = Inr b" "0 < b" "b < 256" by force+
  have "\<forall>i<length bs. rd (a + 1 + int i) = Inr (bs ! i) \<and> 0 < bs ! i \<and> bs ! i < 256"
  proof (intro allI impI)
    fix i assume "i < length bs"
    with Cons.prems(1) have "rd (a + int (Suc i)) = Inr ((b # bs) ! Suc i) \<and> 0 < (b # bs) ! Suc i \<and> (b # bs) ! Suc i < 256"
      by (metis Suc_less_eq length_Cons)
    then show "rd (a + 1 + int i) = Inr (bs ! i) \<and> 0 < bs ! i \<and> bs ! i < 256"
      by (simp add: add.assoc)
  qed
  moreover from Cons.prems(2) have "rd (a + 1 + int (length bs)) = Inr 0"
    by (simp add: add.assoc)
  ultimately have "read_loop rd (a + 1) (acc @ [b]) = Some (Inr ((acc @ [b]) @ bs))"
    by (rule Cons.IH)
  with b show ?case by (subst read_loop.simps) simp
qed

lemma read_loop_stops:
  assumes "case rd (a + int n) of Inl e \<Rightarrow> True | Inr b \<Rightarrow> b \<le> 0 \<or> 256 \<le> b"
  shows "\<exists>r. read_loop rd a acc = Some r"
  using assms
proof (induction n arbitrary: a acc)
  case 0
  then show ?case by (subst read_loop.simps) (auto split: sum.splits)
next
  case (Suc n)
  from Suc.prems have "case rd (a + 1 + int n) of Inl e \<Rightarrow> True | Inr b \<Rightarrow> b \<le> 0 \<or> 256 \<le> b"
    by (simp add: add.assoc)
  then have "\<exists>r. read_loop rd (a + 1) (acc @ [b]) = Some r" for b
    by (rule Suc.IH)
  then show ?case by (subst read_loop.simps) (auto split: sum.splits)
qed

lemma read_loop_Some_stop:
  assumes "read_loop rd a acc = Some r"
  shows "\<exists>x\<ge>a. case rd x of Inl e \<Rightarrow> True | Inr b \<Rightarrow> b \<le> 0 \<or> 256 \<le> b"
proof (rule read_loop.raw_induct
    [where P = "\<lambda>rd a acc r. \<exists>x\<ge>a. case rd x of Inl e \<Rightarrow> True | Inr b \<Rightarrow> b \<le> 0 \<or> 256 \<le> b",
     OF _ assms])
  fix loop :: "(int \<Rightarrow> exc + int) \<Rightarrow> int \<Rightarrow> int list \<Rightarrow> (exc + int list) option"
  fix rd address result r
  assume IH: "\<And>rd' a' acc' y. loop rd' a' acc' = Some y \<Longrightarrow>
                \<exists>x\<ge>a'. case rd' x of Inl e \<Rightarrow> True | Inr b \<Rightarrow> b \<le> 0 \<or> 256 \<le> b"
  assume body: "(case rd address of
                   Inl e \<Rightarrow> Some (Inl e)
                 | Inr byte \<Rightarrow>
                     if byte = 0 then Some (Inr result)
                     else if 0 \<le> byte \<and> byte < 256 then loop rd (address + 1) (result @ [byte])
                     else Some (Inl ValueError)) = Some r"
  show "\<exists>x\<ge>address. case rd x of Inl e \<Rightarrow> True | Inr b \<Rightarrow> b \<le> 0 \<or> 256 \<le> b"
  proof (cases "rd address")
    case (Inl e)
    then show ?thesis by (intro exI [of _ address]) simp
  next
    case (Inr b)
    show ?thesis
    proof (cases "0 < b \<and> b < 256")
      case True
      with Inr body have "loop rd (address + 1) (result @ [b]) = Some r" by simp
      from IH [OF this] obtain x where
        "x \<ge> address + 1" "case rd x of Inl e \<Rightarrow> True | Inr b \<Rightarrow> b \<le> 0 \<or> 256 \<le> b"
        by blast
      then show ?thesis by (intro exI [of _ x]) simp
    next
      case False
      with Inr show ?thesis by (intro exI [of _ address]) auto
    qed
  qed
qed

lemma read_loop_returns_iff:
  "(read_loop rd a acc \<noteq> None) =
     (\<exists>n. case rd (a + int n) of Inl e \<Rightarrow> True | Inr b \<Rightarrow> b \<le> 0 \<or> 256 \<le> b)"
proof
  assume "read_loop rd a acc \<noteq> None"
  then obtain r where "read_loop rd a acc = Some r" by auto
  from read_loop_Some_stop [OF this] obtain x where
    x: "x \<ge> a" "case rd x of Inl e \<Rightarrow> True | Inr b \<Rightarrow> b \<le> 0 \<or> 256 \<le> b" by blast
  then have "x = a + int (nat (x - a))" by simp
  with x(2) show "\<exists>n. case rd (a + int n) of Inl e \<Rightarrow> True | Inr b \<Rightarrow> b \<le> 0 \<or> 256 \<le> b"
    by metis
next
  assume "\<exists>n. case rd (a + int n) of Inl e \<Rightarrow> True | Inr b \<Rightarrow> b \<le> 0 \<or> 256 \<le> b"
  then obtain n where "case rd (a + int n) of Inl e \<Rightarrow> True | Inr b \<Rightarrow> b \<le> 0 \<or> 256 \<le> b" ..
  then show "read_loop rd a acc \<noteq> None" using read_loop_stops [of rd a n acc] by auto
qed

lemma read_c_string_None: "(read_c_string doc a = None) = (read_loop (readByte doc) a [] = None)"
  by (simp add: read_c_string_def split: option.splits sum.splits)

lemma char_of_byte_nonzero:
  assumes "0 < b" "b < (256::int)"
  shows "char_of b \<noteq> CHR 0x00"
proof
  assume "char_of b = CHR 0x00"
  then have "(of_char (char_of b) :: int) = of_char (CHR 0x00)" by simp
  with assms show False by simp
qed

lemma read_c_string_decode:
  assumes "\<forall>i<length bs. readByte doc (a + int i) = Inr (bs ! i) \<and> 0 < bs ! i \<and> bs ! i < 256"
    and "readByte doc (a + int (length bs)) = Inr 0"
  shows "read_c_string doc a = Some (decode bs)"
  using read_loop_bytes [OF assms, of "[]"] by (simp add: read_c_string_def)

text \<open>
  C8, as the claim states it, asks for the text before the first zero byte on every
  memory that has a zero byte. \<^verbatim>\<open>decode()\<close> is strict: on the byte \<open>0xFF\<close> followed by
  a zero byte it raises UnicodeDecodeError, and \<open>read_c_string\<close> returns no text.
\<close>

theorem read_c_string_not_utf8_counterexample:
  "readByte bad_utf8_doc 0 = Inr 0xFF \<and> readByte bad_utf8_doc 1 = Inr 0
   \<and> read_c_string bad_utf8_doc 0 = Some (Inl UnicodeDecodeError)"
proof -
  have b: "readByte bad_utf8_doc 0 = Inr 0xFF" "readByte bad_utf8_doc 1 = Inr 0"
    by (simp_all add: bad_utf8_doc_def)
  have "\<forall>i<length [0xFF :: int].
          readByte bad_utf8_doc (0 + int i) = Inr ([0xFF] ! i) \<and> 0 < [0xFF :: int] ! i
          \<and> [0xFF :: int] ! i < 256"
    by (simp add: b)
  moreover have "readByte bad_utf8_doc (0 + int (length [0xFF :: int])) = Inr 0"
    by (simp add: b)
  ultimately have "read_c_string bad_utf8_doc 0 = Some (decode [0xFF])"
    by (rule read_c_string_decode)
  moreover have "decode [0xFF] = Inl UnicodeDecodeError" by code_simp
  ultimately show ?thesis using b by simp
qed

text \<open>
  C8, amended. When the bytes \<open>bs\<close> at the start address are followed by a zero byte,
  none of them is zero, and they are well-formed UTF-8, \<open>read_c_string\<close> returns exactly
  \<open>bs\<close> decoded as text: the zero byte that ends the string is not part of the result,
  and nothing after it is read. The bytes \<^verbatim>\<open>bar\0baz\0\<close> give \<^verbatim>\<open>bar\<close>. When the bytes
  before the zero byte are not well-formed UTF-8, \<open>read_c_string\<close> raises
  UnicodeDecodeError.
\<close>

theorem read_c_string_until_zero:
  assumes "\<forall>i<length bs. readByte doc (a + int i) = Inr (bs ! i) \<and> 0 < bs ! i \<and> bs ! i < 256"
    and "readByte doc (a + int (length bs)) = Inr 0"
  shows "(utf8_ok bs \<longrightarrow>
            read_c_string doc a = Some (Inr (map char_of bs))
            \<and> length (map char_of bs :: string) = length bs
            \<and> CHR 0x00 \<notin> set (map char_of bs))
         \<and> (\<not> utf8_ok bs \<longrightarrow> read_c_string doc a = Some (Inl UnicodeDecodeError))"
proof -
  have r: "read_c_string doc a = Some (decode bs)"
    using assms by (rule read_c_string_decode)
  have "CHR 0x00 \<notin> set (map char_of bs)"
  proof
    assume "CHR 0x00 \<in> set (map char_of bs)"
    then obtain i where i: "i < length bs" "char_of (bs ! i) = CHR 0x00"
      by (auto simp add: in_set_conv_nth)
    with assms(1) have "0 < bs ! i" "bs ! i < 256" by auto
    from char_of_byte_nonzero [OF this] i(2) show False by simp
  qed
  with r show ?thesis by (simp add: decode_def)
qed

theorem read_c_string_until_zero_witness:
  "readByte batch_doc 0x300004 = Inr 0x62 \<and> readByte batch_doc 0x300005 = Inr 0x61
   \<and> readByte batch_doc 0x300006 = Inr 0x72 \<and> readByte batch_doc 0x300007 = Inr 0
   \<and> readByte batch_doc 0x300008 = Inr 0x62
   \<and> utf8_ok [0x62, 0x61, 0x72]
   \<and> read_c_string batch_doc 0x300004 = Some (Inr ''bar'')"
proof -
  have h1: "\<forall>i<length [0x62, 0x61, 0x72 :: int].
       readByte batch_doc (0x300004 + int i) = Inr ([0x62, 0x61, 0x72] ! i)
       \<and> 0 < [0x62, 0x61, 0x72 :: int] ! i \<and> [0x62, 0x61, 0x72 :: int] ! i < 256"
    by (simp add: All_less_Suc batch_doc_def image_byte_def image_def)
  have h2: "readByte batch_doc (0x300004 + int (length [0x62, 0x61, 0x72 :: int])) = Inr 0"
    by (simp add: batch_doc_def image_byte_def image_def)
  have u: "utf8_ok [0x62, 0x61, 0x72]" by simp
  have m: "readByte batch_doc 0x300004 = Inr 0x62 \<and> readByte batch_doc 0x300005 = Inr 0x61
     \<and> readByte batch_doc 0x300006 = Inr 0x72 \<and> readByte batch_doc 0x300007 = Inr 0
     \<and> readByte batch_doc 0x300008 = Inr 0x62"
    by (simp add: batch_doc_def image_byte_def image_def)
  from read_c_string_until_zero [OF h1 h2] u
  have "read_c_string batch_doc 0x300004 = Some (Inr (map char_of [0x62, 0x61, 0x72 :: int]))"
    by blast
  moreover have "map char_of [0x62, 0x61, 0x72 :: int] = ''bar''" by code_simp
  ultimately have "read_c_string batch_doc 0x300004 = Some (Inr ''bar'')" by simp
  with m u show ?thesis by blast
qed

text \<open>
  C9, as the claim states it, asks that \<open>read_c_string\<close> return on every input. On a
  memory in which every byte is \<open>1\<close> it never returns.
\<close>

theorem read_c_string_unbounded_counterexample: "read_c_string ones_doc 0 = None"
proof -
  have "read_loop (\<lambda>a. Inr 1) 0 [] = None"
    using read_loop_returns_iff [of "\<lambda>a. Inr 1" 0 "[]"] by simp
  then show ?thesis by (simp add: read_c_string_None ones_doc_def)
qed

text \<open>
  C9, amended. \<open>read_c_string\<close> has no bound on its iteration and no signal for a string
  that is too long. It returns, with the text or with an exception, exactly when some
  read at or after the start address gives zero, gives a value outside \<open>1..255\<close>, or
  raises; on any other memory it runs forever.
\<close>

theorem read_c_string_returns_iff:
  "(\<exists>r. read_c_string doc a = Some r) =
     (\<exists>n. case readByte doc (a + int n) of Inl e \<Rightarrow> True | Inr b \<Rightarrow> b \<le> 0 \<or> 256 \<le> b)"
  using read_loop_returns_iff [of "readByte doc" a "[]"] read_c_string_None [of doc a]
  by auto

theorem read_c_string_returns_iff_witness:
  "(\<exists>r. read_c_string batch_doc 0x300000 = Some r)
   \<and> (case readByte batch_doc (0x300000 + int 3) of Inl e \<Rightarrow> True | Inr b \<Rightarrow> b \<le> 0 \<or> 256 \<le> b)
   \<and> \<not> (\<exists>r. read_c_string ones_doc 0x300000 = Some r)"
proof -
  have h: "case readByte batch_doc (0x300000 + int 3) of Inl e \<Rightarrow> True | Inr b \<Rightarrow> b \<le> 0 \<or> 256 \<le> b"
    by (simp add: batch_doc_def image_byte_def image_def)
  then have "\<exists>n. case readByte batch_doc (0x300000 + int n) of Inl e \<Rightarrow> True | Inr b \<Rightarrow> b \<le> 0 \<or> 256 \<le> b" ..
  then have 1: "\<exists>r. read_c_string batch_doc 0x300000 = Some r"
    using read_c_string_returns_iff [of batch_doc "0x300000"] by simp
  have 2: "\<not> (\<exists>r. read_c_string ones_doc 0x300000 = Some r)"
    using read_c_string_returns_iff [of ones_doc "0x300000"] by (simp add: ones_doc_def)
  from 1 h 2 show ?thesis by blast
qed

section \<open>The selector resolver\<close>

subsection \<open>Splitting and parsing the operand text\<close>

lemma py_split_unfold:
  "py_split c s =
     takeWhile (\<lambda>x. x \<noteq> c) s #
       (case dropWhile (\<lambda>x. x \<noteq> c) s of [] \<Rightarrow> [] | d # r \<Rightarrow> py_split c r)"
proof (induction s)
  case Nil
  show ?case by simp
next
  case (Cons x xs)
  show ?case
  proof (cases "x = c")
    case True
    then show ?thesis by simp
  next
    case False
    then have "py_split c (x # xs) = (case py_split c xs of [] \<Rightarrow> [[x]] | p # ps \<Rightarrow> (x # p) # ps)"
      by simp
    also have "\<dots> = (x # takeWhile (\<lambda>x. x \<noteq> c) xs) #
       (case dropWhile (\<lambda>x. x \<noteq> c) xs of [] \<Rightarrow> [] | d # r \<Rightarrow> py_split c r)"
      by (subst Cons.IH) simp
    finally show ?thesis using False by simp
  qed
qed

lemma py_split_index0: "py_index (py_split c s) 0 = Inr (takeWhile (\<lambda>x. x \<noteq> c) s)"
  by (subst py_split_unfold) (simp add: py_index_def)

lemma py_split_length: "0 < length (py_split c s)"
  by (subst py_split_unfold) simp

lemma py_split_index1_none:
  assumes "dropWhile (\<lambda>x. x \<noteq> c) s = []"
  shows "py_index (py_split c s) 1 = Inl IndexError"
  apply (subst py_split_unfold)
  apply (simp only: assms list.case)
  apply (simp add: py_index_def)
  done

lemma py_split_index1_some:
  assumes "dropWhile (\<lambda>x. x \<noteq> c) s = d # r"
  shows "py_index (py_split c s) 1 = Inr (takeWhile (\<lambda>x. x \<noteq> c) r)"
proof -
  have "py_split c s = takeWhile (\<lambda>x. x \<noteq> c) s # py_split c r"
    apply (subst py_split_unfold)
    apply (simp only: assms list.case)
    done
  moreover have "py_split c r ! 0 = takeWhile (\<lambda>x. x \<noteq> c) r"
    by (subst py_split_unfold) simp
  ultimately show ?thesis using py_split_length [of c r] by (simp add: py_index_def)
qed

lemma parse_offset_try_unfold:
  "parse_offset_try t =
     (case dropWhile (\<lambda>x. x \<noteq> CHR ''['') t of
        [] \<Rightarrow> Inl IndexError
      | d # r \<Rightarrow>
          (case dropWhile (\<lambda>x. x \<noteq> CHR '','')
                  (takeWhile (\<lambda>x. x \<noteq> CHR '']'') (takeWhile (\<lambda>x. x \<noteq> CHR ''['') r)) of
             [] \<Rightarrow> Inl IndexError
           | d' # q \<Rightarrow> py_int16 (drop 1 (py_strip (takeWhile (\<lambda>x. x \<noteq> CHR '','') q)))))"
proof (cases "dropWhile (\<lambda>x. x \<noteq> CHR ''['') t")
  case Nil
  from py_split_index1_none [OF Nil]
  have "parse_offset_try t = Inl IndexError"
    by (simp add: parse_offset_try_def bind_exc_def)
  then show ?thesis by (simp only: Nil list.case)
next
  case (Cons d r)
  let ?inside = "takeWhile (\<lambda>x. x \<noteq> CHR '']'') (takeWhile (\<lambda>x. x \<noteq> CHR ''['') r)"
  from py_split_index1_some [OF Cons]
  have t: "parse_offset_try t =
             bind_exc (py_index (py_split CHR '','' ?inside) 1)
               (\<lambda>part. py_int16 (drop 1 (py_strip part)))"
    by (simp add: parse_offset_try_def bind_exc_def py_split_index0)
  show ?thesis
  proof (cases "dropWhile (\<lambda>x. x \<noteq> CHR '','') ?inside")
    case Nil
    from py_split_index1_none [OF Nil] t
    have "parse_offset_try t = Inl IndexError" by (simp add: bind_exc_def)
    then show ?thesis by (simp only: Cons Nil list.case)
  next
    case (Cons d' q)
    from py_split_index1_some [OF Cons] t
    have "parse_offset_try t = py_int16 (drop 1 (py_strip (takeWhile (\<lambda>x. x \<noteq> CHR '','') q)))"
      by (simp add: bind_exc_def)
    then show ?thesis by (simp only: \<open>dropWhile (\<lambda>x. x \<noteq> CHR ''['') t = d # r\<close> Cons list.case)
  qed
qed

lemma py_int16_error: "py_int16 s = Inl e \<Longrightarrow> e = ValueError"
  by (auto simp add: py_int16_def Let_def split: prod.splits if_splits option.splits)

lemma parse_offset_try_error:
  "parse_offset_try t = Inl e \<Longrightarrow> e = IndexError \<or> e = ValueError"
  by (auto simp add: parse_offset_try_unfold split: list.splits dest: py_int16_error)

lemma parse_offset_total: "parse_offset t = Inr None \<or> (\<exists>v. parse_offset t = Inr (Some v))"
  by (cases "parse_offset_try t") (auto simp add: parse_offset_def dest: parse_offset_try_error)


lemma takeWhile_neq_notin: "c \<notin> set xs \<Longrightarrow> takeWhile (\<lambda>x. x \<noteq> c) xs = xs"
  by (induction xs) auto

lemma dropWhile_neq_first: "c \<notin> set xs \<Longrightarrow> dropWhile (\<lambda>x. x \<noteq> c) (xs @ c # ys) = c # ys"
  by (induction xs) auto

lemma takeWhile_neq_first: "c \<notin> set xs \<Longrightarrow> takeWhile (\<lambda>x. x \<noteq> c) (xs @ c # ys) = xs"
  by (induction xs) auto

lemma takeWhile_neq_append:
  "c \<notin> set xs \<Longrightarrow> takeWhile (\<lambda>x. x \<noteq> c) (xs @ ys) = xs @ takeWhile (\<lambda>x. x \<noteq> c) ys"
  by (induction xs) auto



lemma parse_offset_try_shape:
  assumes pre: "CHR ''['' \<notin> set pre"
    and reg: "CHR ''['' \<notin> set reg" "CHR '']'' \<notin> set reg" "CHR '','' \<notin> set reg"
    and off: "CHR ''['' \<notin> set off" "CHR '']'' \<notin> set off" "CHR '','' \<notin> set off"
    and post: "post = [] \<or> hd post = CHR '']'' \<or> hd post = CHR '','' \<or> hd post = CHR ''[''"
  shows "parse_offset_try (pre @ CHR ''['' # reg @ CHR '','' # off @ post) =
           py_int16 (drop 1 (py_strip off))"
proof -
  let ?X = "reg @ CHR '','' # off @ post"
  let ?inside = "takeWhile (\<lambda>x. x \<noteq> CHR '']'') (takeWhile (\<lambda>x. x \<noteq> CHR ''['') ?X)"
  have 1: "dropWhile (\<lambda>x. x \<noteq> CHR ''['') (pre @ CHR ''['' # ?X) = CHR ''['' # ?X"
    by (rule dropWhile_neq_first [OF pre])
  have in1: "CHR ''['' \<notin> set (reg @ CHR '','' # off)" using reg off by simp
  have in2: "CHR '']'' \<notin> set (reg @ CHR '','' # off)" using reg off by simp
  have 2: "\<exists>tail. ?inside = reg @ CHR '','' # off @ tail \<and> (tail = [] \<or> hd tail = CHR '','')"
  proof (cases post)
    case Nil
    have "?inside = reg @ CHR '','' # off @ []"
      by (simp only: Nil append_Nil2 takeWhile_neq_notin [OF in1] takeWhile_neq_notin [OF in2])
    then show ?thesis by blast
  next
    case (Cons c post')
    have X: "?X = (reg @ CHR '','' # off) @ c # post'" using Cons by simp
    from post Cons consider (close) "c = CHR '']''" | (comma) "c = CHR '',''" | (opn) "c = CHR ''[''"
      by auto
    then show ?thesis
    proof cases
      case close
      have "takeWhile (\<lambda>x. x \<noteq> CHR ''['') ?X =
              (reg @ CHR '','' # off) @ CHR '']'' # takeWhile (\<lambda>x. x \<noteq> CHR ''['') post'"
        unfolding X using takeWhile_neq_append [OF in1] close by simp
      then have "?inside = reg @ CHR '','' # off @ []"
        using takeWhile_neq_first [OF in2] by simp
      then show ?thesis by blast
    next
      case comma
      have "takeWhile (\<lambda>x. x \<noteq> CHR ''['') ?X =
              (reg @ CHR '','' # off) @ CHR '','' # takeWhile (\<lambda>x. x \<noteq> CHR ''['') post'"
        unfolding X using takeWhile_neq_append [OF in1] comma by simp
      then have "?inside =
              (reg @ CHR '','' # off) @
                CHR '','' # takeWhile (\<lambda>x. x \<noteq> CHR '']'') (takeWhile (\<lambda>x. x \<noteq> CHR ''['') post')"
        using takeWhile_neq_append [OF in2] by simp
      then have "?inside = reg @ CHR '','' # off @
                CHR '','' # takeWhile (\<lambda>x. x \<noteq> CHR '']'') (takeWhile (\<lambda>x. x \<noteq> CHR ''['') post')"
        by simp
      then show ?thesis by (metis list.sel(1))
    next
      case opn
      have "takeWhile (\<lambda>x. x \<noteq> CHR ''['') ?X = reg @ CHR '','' # off"
        unfolding X using takeWhile_neq_first [OF in1] opn by simp
      then have "?inside = reg @ CHR '','' # off @ []"
        using takeWhile_neq_notin [OF in2] by simp
      then show ?thesis by blast
    qed
  qed
  then obtain tail where inside: "?inside = reg @ CHR '','' # off @ tail"
    and tail: "tail = [] \<or> hd tail = CHR '',''" by blast
  have 3: "dropWhile (\<lambda>x. x \<noteq> CHR '','') (reg @ CHR '','' # off @ tail) = CHR '','' # off @ tail"
    by (rule dropWhile_neq_first [OF reg(3)])
  have 4: "takeWhile (\<lambda>x. x \<noteq> CHR '','') (off @ tail) = off"
  proof (cases tail)
    case Nil
    then show ?thesis using takeWhile_neq_notin [OF off(3)] by simp
  next
    case (Cons c tail')
    with tail have "c = CHR '',''" by simp
    with Cons show ?thesis using takeWhile_neq_first [OF off(3)] by simp
  qed
  show ?thesis by (simp only: parse_offset_try_unfold 1 inside 3 4 list.case)
qed

lemma get_selector_parsed:
  assumes "getCurrentSegment doc = Some seg"
    and "getInstructionAtAddress seg address = Some adrp_inst"
    and "getInstructionAtAddress seg (address + 4) = Some ldr_inst"
    and "get_page_address adrp_inst = Inr (Some page)"
    and "parse_offset (py_str (getFormattedArgument ldr_inst 1)) = Inr (Some offset)"
  shows "get_selector doc address = selector_at doc (page + offset)"
  using assms by (simp add: get_selector_def)


lemma get_page_address_hex:
  assumes "getFormattedArgument adrp_inst 1 = Some page_text"
    and "py_int16 (drop 1 page_text) = Inr page"
  shows "get_page_address adrp_inst = Inr (Some page)"
  using assms by (simp add: get_page_address_def get_page_address_try_def)

subsection \<open>The address of the pointer cell\<close>

text \<open>
  C2. When the second operand of the first instruction is \<open>page_text\<close> and the second
  operand of the second instruction has the shape \<^verbatim>\<open>[reg,offset_text]\<close>, the resolver
  reads the pointer cell at the sum of two hexadecimal values: that of \<open>page_text\<close>
  without its first character, and that of \<open>offset_text\<close> without the blanks around it
  and without its first character. For \<^verbatim>\<open>#0x100000\<close> and \<^verbatim>\<open>[x8, #0x18]\<close> the cell is
  \<open>0x100018\<close>.
\<close>

theorem get_selector_cell_address:
  assumes "getCurrentSegment doc = Some seg"
    and "getInstructionAtAddress seg address = Some adrp_inst"
    and "getInstructionAtAddress seg (address + 4) = Some ldr_inst"
    and "getFormattedArgument adrp_inst 1 = Some page_text"
    and "py_int16 (drop 1 page_text) = Inr page"
    and "getFormattedArgument ldr_inst 1 = Some (pre @ ''['' @ reg @ '','' @ offset_text @ '']'' @ post)"
    and "CHR ''['' \<notin> set pre"
    and "CHR ''['' \<notin> set reg" "CHR '']'' \<notin> set reg" "CHR '','' \<notin> set reg"
    and "CHR ''['' \<notin> set offset_text" "CHR '']'' \<notin> set offset_text" "CHR '','' \<notin> set offset_text"
    and "py_int16 (drop 1 (py_strip offset_text)) = Inr offset"
  shows "get_selector doc address = selector_at doc (page + offset)"
proof -
  have "parse_offset_try (pre @ CHR ''['' # reg @ CHR '','' # offset_text @ (CHR '']'' # post)) =
          py_int16 (drop 1 (py_strip offset_text))"
    by (rule parse_offset_try_shape) (use assms in simp_all)
  with assms(6,14) have "parse_offset (py_str (getFormattedArgument ldr_inst 1)) = Inr (Some offset)"
    by (simp add: parse_offset_def py_str_def)
  with assms(1-3) get_page_address_hex [OF assms(4,5)] show ?thesis
    by (rule get_selector_parsed)
qed

theorem get_selector_cell_address_witness:
  "py_int16 (drop 1 ''#0x100000'') = Inr 0x100000
   \<and> py_int16 (drop 1 (py_strip '' #0x18'')) = Inr 0x18
   \<and> get_selector (stub_doc [''x8'', ''#0x100000''] [''x1'', ''[x8, #0x18]'']) 0x1000 =
       selector_at (stub_doc [''x8'', ''#0x100000''] [''x1'', ''[x8, #0x18]'']) 0x100018"
proof -
  let ?doc = "stub_doc [''x8'', ''#0x100000''] [''x1'', ''[x8, #0x18]'']"
  let ?seg = "stub_seg [''x8'', ''#0x100000''] [''x1'', ''[x8, #0x18]'']"
  have p: "py_int16 (drop 1 ''#0x100000'') = Inr 0x100000" by code_simp
  have q: "py_int16 (drop 1 (py_strip '' #0x18'')) = Inr 0x18" by code_simp
  have "get_selector ?doc 0x1000 = selector_at ?doc (0x100000 + 0x18)"
  proof (rule get_selector_cell_address
          [where seg = ?seg and adrp_inst = "mk_inst ''adrp'' [''x8'', ''#0x100000'']"
             and ldr_inst = "mk_inst ''ldr'' [''x1'', ''[x8, #0x18]'']"
             and page_text = "''#0x100000''" and pre = "[]" and reg = "''x8''"
             and offset_text = "'' #0x18''" and post = "[]"])
    show "py_int16 (drop 1 ''#0x100000'') = Inr 0x100000" by (rule p)
    show "py_int16 (drop 1 (py_strip '' #0x18'')) = Inr 0x18" by (rule q)
  qed (simp_all add: stub_doc_def stub_seg_def stub_at_def mk_inst_def)
  with p q show ?thesis by simp
qed

subsection \<open>Following the pointer\<close>

text \<open>
  C3. When the pointer cell that the resolver computes holds a pointer \<open>Q\<close> that is not
  zero, and the bytes at \<open>Q\<close> are \<^verbatim>\<open>foo\<close> and a zero byte, the resolver returns the
  text \<^verbatim>\<open>foo\<close>.
\<close>

theorem get_selector_round_trip:
  assumes "getCurrentSegment doc = Some seg"
    and "getInstructionAtAddress seg address = Some adrp_inst"
    and "getInstructionAtAddress seg (address + 4) = Some ldr_inst"
    and "get_page_address adrp_inst = Inr (Some page)"
    and "parse_offset (py_str (getFormattedArgument ldr_inst 1)) = Inr (Some offset)"
    and "readUInt64LE doc (page + offset) = Inr Q"
    and "Q \<noteq> 0"
    and "readByte doc Q = Inr 0x66" "readByte doc (Q + 1) = Inr 0x6F"
    and "readByte doc (Q + 2) = Inr 0x6F" "readByte doc (Q + 3) = Inr 0"
  shows "get_selector doc address = Some (Inr (Some ''foo''))"
proof -
  have "read_loop (readByte doc) Q [] = Some (Inr ([] @ [0x66, 0x6F, 0x6F]))"
    by (rule read_loop_bytes) (use assms(8-11) in \<open>simp_all add: All_less_Suc\<close>)
  moreover have "decode [0x66, 0x6F, 0x6F] = Inr ''foo''" by code_simp
  ultimately have "read_c_string doc Q = Some (Inr ''foo'')"
    by (simp add: read_c_string_def)
  with assms(6,7) have "selector_at doc (page + offset) = Some (Inr (Some ''foo''))"
    by (simp add: selector_at_def)
  with get_selector_parsed [OF assms(1-5)] show ?thesis by simp
qed

theorem get_selector_round_trip_witness:
  "readUInt64LE batch_doc 0x100018 = Inr 0x300000
   \<and> readByte batch_doc 0x300000 = Inr 0x66 \<and> readByte batch_doc 0x300001 = Inr 0x6F
   \<and> readByte batch_doc 0x300002 = Inr 0x6F \<and> readByte batch_doc 0x300003 = Inr 0
   \<and> get_selector batch_doc 0x1000 = Some (Inr (Some ''foo''))"
proof -
  let ?adrp = "mk_inst ''adrp x8, #0x100000'' [''x8'', ''#0x100000'']"
  let ?ldr = "mk_inst ''ldr x1, [x8, #0x18]'' [''x1'', ''[x8, #0x18]'']"
  have seg: "getCurrentSegment batch_doc = Some batch_seg" by (simp add: batch_doc_def)
  have i1: "getInstructionAtAddress batch_seg 0x1000 = Some ?adrp"
    by (simp add: batch_seg_def stub_at_def map_add_def)
  have i2: "getInstructionAtAddress batch_seg (0x1000 + 4) = Some ?ldr"
    by (simp add: batch_seg_def stub_at_def map_add_def)
  have pg: "get_page_address ?adrp = Inr (Some 0x100000)" by code_simp
  have off: "parse_offset (py_str (getFormattedArgument ?ldr 1)) = Inr (Some 0x18)" by code_simp
  have cell: "readUInt64LE batch_doc (0x100000 + 0x18) = Inr 0x300000" by code_simp
  have b: "readByte batch_doc 0x300000 = Inr 0x66" "readByte batch_doc (0x300000 + 1) = Inr 0x6F"
    "readByte batch_doc (0x300000 + 2) = Inr 0x6F" "readByte batch_doc (0x300000 + 3) = Inr 0"
    by (simp_all add: batch_doc_def image_byte_def image_def)
  have "get_selector batch_doc 0x1000 = Some (Inr (Some ''foo''))"
    by (rule get_selector_round_trip [OF seg i1 i2 pg off cell _ b]) simp
  with cell b show ?thesis by simp
qed

text \<open>
  C7, as the claim states it, asks that the resolver return no result when the read of
  the pointer cell fails. The read is outside any \<^verbatim>\<open>try\<close>: when the host raises on the
  cell \<open>0x100030\<close>, which is not mapped, the exception leaves the resolver.
\<close>

theorem get_selector_read_raises_counterexample:
  "get_page_address (mk_inst ''adrp'' [''x8'', ''#0x100000'']) = Inr (Some 0x100000)
   \<and> parse_offset ''[x8, #0x30]'' = Inr (Some 0x30)
   \<and> readUInt64LE (stub_doc [''x8'', ''#0x100000''] [''x1'', ''[x8, #0x30]'']) 0x100030 =
       Inl HostError
   \<and> get_selector (stub_doc [''x8'', ''#0x100000''] [''x1'', ''[x8, #0x30]'']) 0x1000 =
       Some (Inl HostError)
   \<and> get_selector (stub_doc [''x8'', ''#0x100000''] [''x1'', ''[x8, #0x30]'']) 0x1000 \<noteq>
       Some (Inr None)"
  by (intro conjI; code_simp)

text \<open>
  C7, amended. When the page and the offset both parse and the read of the pointer cell
  gives zero, the resolver returns \<^verbatim>\<open>None\<close>. When the read raises, the resolver returns
  nothing: it leaves with that exception. In both cases no selector is produced.
\<close>

theorem get_selector_null_pointer:
  assumes "getCurrentSegment doc = Some seg"
    and "getInstructionAtAddress seg address = Some adrp_inst"
    and "getInstructionAtAddress seg (address + 4) = Some ldr_inst"
    and "get_page_address adrp_inst = Inr (Some page)"
    and "parse_offset (py_str (getFormattedArgument ldr_inst 1)) = Inr (Some offset)"
    and "readUInt64LE doc (page + offset) = r"
    and "r = Inr 0 \<or> (\<exists>e. r = Inl e)"
  shows "get_selector doc address = Some (case r of Inl e \<Rightarrow> Inl e | Inr q \<Rightarrow> Inr None)
         \<and> (\<forall>s. get_selector doc address \<noteq> Some (Inr (Some s)))"
proof -
  from assms(6,7)
  have "selector_at doc (page + offset) = Some (case r of Inl e \<Rightarrow> Inl e | Inr q \<Rightarrow> Inr None)"
    by (auto simp add: selector_at_def)
  with get_selector_parsed [OF assms(1-5)] assms(7) show ?thesis by auto
qed

theorem get_selector_null_pointer_witness:
  "readUInt64LE (stub_doc [''x8'', ''#0x100000''] [''x1'', ''[x8, #0x28]'']) 0x100028 = Inr 0
   \<and> get_selector (stub_doc [''x8'', ''#0x100000''] [''x1'', ''[x8, #0x28]'']) 0x1000 = Some (Inr None)
   \<and> readUInt64LE (stub_doc [''x8'', ''#0x100000''] [''x1'', ''[x8, #0x30]'']) 0x100030 = Inl HostError
   \<and> get_selector (stub_doc [''x8'', ''#0x100000''] [''x1'', ''[x8, #0x30]'']) 0x1000 = Some (Inl HostError)"
proof -
  let ?adrp = "mk_inst ''adrp'' [''x8'', ''#0x100000'']"
  let ?l1 = "mk_inst ''ldr'' [''x1'', ''[x8, #0x28]'']"
  let ?l2 = "mk_inst ''ldr'' [''x1'', ''[x8, #0x30]'']"
  let ?d1 = "stub_doc [''x8'', ''#0x100000''] [''x1'', ''[x8, #0x28]'']"
  let ?d2 = "stub_doc [''x8'', ''#0x100000''] [''x1'', ''[x8, #0x30]'']"
  have pg: "get_page_address ?adrp = Inr (Some 0x100000)" by code_simp
  have o1: "parse_offset (py_str (getFormattedArgument ?l1 1)) = Inr (Some 0x28)" by code_simp
  have o2: "parse_offset (py_str (getFormattedArgument ?l2 1)) = Inr (Some 0x30)" by code_simp
  have c1: "readUInt64LE ?d1 (0x100000 + 0x28) = Inr 0" by code_simp
  have c2: "readUInt64LE ?d2 (0x100000 + 0x30) = Inl HostError" by code_simp
  have s1: "getCurrentSegment ?d1 = Some (stub_seg [''x8'', ''#0x100000''] [''x1'', ''[x8, #0x28]''])"
    by (simp add: stub_doc_def)
  have s2: "getCurrentSegment ?d2 = Some (stub_seg [''x8'', ''#0x100000''] [''x1'', ''[x8, #0x30]''])"
    by (simp add: stub_doc_def)
  have r1: "get_selector ?d1 0x1000 = Some (Inr None)"
    using get_selector_null_pointer [OF s1 _ _ pg o1 c1, of "0x1000"]
    by (simp add: stub_seg_def stub_at_def)
  have r2: "get_selector ?d2 0x1000 = Some (Inl HostError)"
    using get_selector_null_pointer [OF s2 _ _ pg o2 c2, of "0x1000"]
    by (simp add: stub_seg_def stub_at_def)
  from c1 c2 r1 r2 show ?thesis by simp
qed

subsection \<open>An operand that does not parse\<close>

text \<open>
  When the second operand of the first instruction is there and is not a hexadecimal
  numeral after its first character, the page is \<^verbatim>\<open>None\<close> and so is the result of the
  resolver.
\<close>

lemma get_page_address_not_hex:
  assumes "getCurrentSegment doc = Some seg"
    and "getInstructionAtAddress seg address = Some adrp_inst"
    and "getInstructionAtAddress seg (address + 4) = Some ldr_inst"
    and "getFormattedArgument adrp_inst 1 = Some page_text"
    and "py_int16 (drop 1 page_text) = Inl e"
  shows "get_page_address adrp_inst = Inr None \<and> get_selector doc address = Some (Inr None)"
proof -
  from py_int16_error [OF assms(5)] assms(4,5)
  have "get_page_address adrp_inst = Inr None"
    by (simp add: get_page_address_def get_page_address_try_def)
  with assms(1-3) parse_offset_total [of "py_str (getFormattedArgument ldr_inst 1)"]
  show ?thesis by (auto simp add: get_selector_def)
qed

text \<open>
  C5. The claim is that a first instruction whose second operand is missing, or is not a
  hexadecimal numeral after its first character, gives a null page and no result, and
  that nothing is raised to the caller. For the numeral this is the lemma above. For the
  missing operand the code does otherwise: \<^verbatim>\<open>getFormattedArgument(1)\<close> is \<^verbatim>\<open>None\<close>,
  slicing it raises TypeError, the handler of \<open>get_page_address\<close> names ValueError only,
  and the exception leaves the resolver. The stub at \<open>0x2000\<close> of the sample batch is
  such an instruction.
\<close>

theorem get_page_address_missing_operand:
  "getFormattedArgument (mk_inst ''adrp x8'' [''x8'']) 1 = None
   \<and> get_page_address (mk_inst ''adrp x8'' [''x8'']) = Inl TypeError
   \<and> is_objc_stub batch_doc 0x2000 = Inr True
   \<and> get_selector batch_doc 0x2000 = Some (Inl TypeError)"
  by (intro conjI; code_simp)




section \<open>The driver\<close>

text \<open>The analysis of an address does not look at the symbol table.\<close>

lemma is_objc_stub_names:
  "is_objc_stub (doc\<lparr>getNameAtAddress := f\<rparr>) a = is_objc_stub doc a"
  by (simp add: is_objc_stub_def)

lemma read_c_string_names:
  "read_c_string (doc\<lparr>getNameAtAddress := f\<rparr>) a = read_c_string doc a"
  by (simp add: read_c_string_def)

lemma selector_at_names:
  "selector_at (doc\<lparr>getNameAtAddress := f\<rparr>) a = selector_at doc a"
  by (simp add: selector_at_def read_c_string_names cong: sum.case_cong if_cong)

lemma get_selector_names:
  "get_selector (doc\<lparr>getNameAtAddress := f\<rparr>) a = get_selector doc a"
  by (simp add: get_selector_def selector_at_names
      cong: option.case_cong sum.case_cong prod.case_cong)

lemma try_analysis_names:
  "try_analysis (doc\<lparr>getNameAtAddress := f\<rparr>) a = try_analysis doc a"
  by (simp add: try_analysis_def is_objc_stub_names get_selector_names
      cong: sum.case_cong if_cong)

lemma resolved_other:
  "a \<noteq> x \<Longrightarrow>
   resolved (doc\<lparr>getNameAtAddress := (getNameAtAddress doc)(x \<mapsto> v)\<rparr>) a = resolved doc a"
  by (simp add: resolved_def try_analysis_names cong: option.case_cong if_cong)

lemma rename_one_unresolved:
  assumes "getNameAtAddress doc a \<noteq> None"
    and "\<forall>name. getNameAtAddress doc a = Some name \<longrightarrow> prefix ''sub_'' name \<longrightarrow> try_analysis doc a \<noteq> None"
    and "resolved doc a = None"
  shows "rename_one (n, doc) a = Some (Inr (n, doc))"
  using assms
  by (auto simp add: rename_one_def resolved_def split: option.splits sum.splits if_splits)

lemma rename_one_resolved:
  assumes "resolved doc a = Some selector"
    and "setNameFault doc a (selector @ ''()'') = None"
  shows "rename_one (n, doc) a =
           Some (Inr (n + 1, doc\<lparr>getNameAtAddress := (getNameAtAddress doc)(a \<mapsto> selector @ ''()'')\<rparr>))"
  using assms
  by (auto simp add: rename_one_def resolved_def setNameAtAddress_def
      split: option.splits sum.splits if_splits)


lemma rename_loop_result:
  assumes "distinct addrs"
    and "\<forall>a\<in>set addrs. getNameAtAddress doc a \<noteq> None"
    and "\<forall>a\<in>set addrs. \<forall>name. getNameAtAddress doc a = Some name \<longrightarrow> prefix ''sub_'' name
           \<longrightarrow> try_analysis doc a \<noteq> None"
    and "\<forall>a name. setNameFault doc a name = None"
  shows "rename_loop (n, doc) addrs =
           Some (Inr (n + length (filter (\<lambda>a. resolved doc a \<noteq> None) addrs),
                      doc\<lparr>getNameAtAddress := renamed doc addrs\<rparr>))"
  using assms
proof (induction addrs arbitrary: n doc)
  case Nil
  have "renamed doc [] = getNameAtAddress doc" by (rule ext) (simp add: renamed_def)
  then show ?case by simp
next
  case (Cons x xs)
  from Cons.prems(1) have x: "x \<notin> set xs" and d: "distinct xs" by simp_all
  show ?case
  proof (cases "resolved doc x")
    case None
    from Cons.prems(2,3) have one: "rename_one (n, doc) x = Some (Inr (n, doc))"
      by (intro rename_one_unresolved None) simp_all
    have rest: "rename_loop (n, doc) xs =
           Some (Inr (n + length (filter (\<lambda>a. resolved doc a \<noteq> None) xs),
                      doc\<lparr>getNameAtAddress := renamed doc xs\<rparr>))"
      using d Cons.prems(2,3,4) by (intro Cons.IH) simp_all
    have "renamed doc (x # xs) = renamed doc xs"
      using None x by (intro ext) (simp add: renamed_def)
    with one rest None show ?thesis by simp
  next
    case (Some selector)
    let ?doc' = "doc\<lparr>getNameAtAddress := (getNameAtAddress doc)(x \<mapsto> selector @ ''()'')\<rparr>"
    from Cons.prems(4) have one: "rename_one (n, doc) x = Some (Inr (n + 1, ?doc'))"
      by (intro rename_one_resolved Some) simp
    have same: "resolved ?doc' a = resolved doc a" if "a \<in> set xs" for a
      using that x by (intro resolved_other) auto
    have rest: "rename_loop (n + 1, ?doc') xs =
           Some (Inr (n + 1 + length (filter (\<lambda>a. resolved ?doc' a \<noteq> None) xs),
                      ?doc'\<lparr>getNameAtAddress := renamed ?doc' xs\<rparr>))"
      using d Cons.prems(2,3,4) x by (intro Cons.IH) (auto simp add: try_analysis_names)
    have f: "filter (\<lambda>a. resolved ?doc' a \<noteq> None) xs = filter (\<lambda>a. resolved doc a \<noteq> None) xs"
      by (rule filter_cong) (simp_all add: same)
    have r: "renamed ?doc' xs = renamed doc (x # xs)"
    proof (rule ext)
      fix a
      show "renamed ?doc' xs a = renamed doc (x # xs) a"
        using Some x same [of a]
        by (cases "a = x") (auto simp add: renamed_def split: option.splits)
    qed
    from rest have "rename_loop (n + 1, ?doc') xs =
           Some (Inr (n + 1 + length (filter (\<lambda>a. resolved doc a \<noteq> None) xs),
                      doc\<lparr>getNameAtAddress := renamed doc (x # xs)\<rparr>))"
      unfolding f r by simp
    with one Some show ?thesis by simp
  qed
qed

lemma rename_one_keeps:
  assumes "getNameAtAddress doc a = Some name" "\<not> prefix ''sub_'' name"
    and "rename_one (n, doc) x = Some (Inr (n', doc'))"
  shows "getNameAtAddress doc' a = Some name"
proof (cases "x = a")
  case True
  with assms show ?thesis by (simp add: rename_one_def)
next
  case False
  with assms(1,3) show ?thesis
    by (auto simp add: rename_one_def setNameAtAddress_def
        split: option.splits sum.splits if_splits)
qed

lemma rename_loop_keeps:
  assumes "getNameAtAddress doc a = Some name" "\<not> prefix ''sub_'' name"
    and "rename_loop (n, doc) addrs = Some (Inr (n', doc'))"
  shows "getNameAtAddress doc' a = Some name"
  using assms
proof (induction addrs arbitrary: n doc)
  case Nil
  then show ?case by simp
next
  case (Cons x xs)
  from Cons.prems(3) obtain n2 doc2 where
    one: "rename_one (n, doc) x = Some (Inr (n2, doc2))"
    and rest: "rename_loop (n2, doc2) xs = Some (Inr (n', doc'))"
    by (auto split: option.splits sum.splits)
  from rename_one_keeps [OF Cons.prems(1,2) one] Cons.prems(2) rest
  show ?case by (rule Cons.IH)
qed

text \<open>The sample batch: what the analysis gives for each of its four addresses.\<close>

lemma batch_analysis:
  "try_analysis batch_doc 0x1000 = Some (Inr (Some ''foo''))"
  "try_analysis batch_doc 0x2000 = Some (Inl TypeError)"
  "try_analysis batch_doc 0x3000 = Some (Inr (Some ''bar''))"
  "try_analysis batch_doc 0x4000 = Some (Inr (Some ''foo''))"
  by code_simp+

lemma batch_resolved:
  "resolved batch_doc 0x1000 = Some ''foo''"
  "resolved batch_doc 0x2000 = None"
  "resolved batch_doc 0x3000 = Some ''bar''"
  "resolved batch_doc 0x4000 = None"
  by code_simp+

lemma batch_hyps:
  "getSegmentByName batch_doc ''__TEXT'' = Some batch_seg"
  "getNamedAddresses batch_seg = [0x1000, 0x2000, 0x3000, 0x4000]"
  "distinct (getNamedAddresses batch_seg)"
  "\<forall>a\<in>set (getNamedAddresses batch_seg). getNameAtAddress batch_doc a \<noteq> None"
  "\<forall>a\<in>set (getNamedAddresses batch_seg). \<forall>name.
      getNameAtAddress batch_doc a = Some name \<longrightarrow> prefix ''sub_'' name
      \<longrightarrow> try_analysis batch_doc a \<noteq> None"
  "\<forall>a name. setNameFault batch_doc a name = None"
proof -
  show "getSegmentByName batch_doc ''__TEXT'' = Some batch_seg"
    by (simp add: batch_doc_def)
  show addrs: "getNamedAddresses batch_seg = [0x1000, 0x2000, 0x3000, 0x4000]"
    by (simp add: batch_seg_def)
  show "distinct (getNamedAddresses batch_seg)"
    by (simp add: addrs)
  show "\<forall>a\<in>set (getNamedAddresses batch_seg). getNameAtAddress batch_doc a \<noteq> None"
    by (simp add: addrs batch_doc_def batch_names_def)
  show "\<forall>a\<in>set (getNamedAddresses batch_seg). \<forall>name.
      getNameAtAddress batch_doc a = Some name \<longrightarrow> prefix ''sub_'' name
      \<longrightarrow> try_analysis batch_doc a \<noteq> None"
    by (simp add: addrs batch_analysis)
  show "\<forall>a name. setNameFault batch_doc a name = None"
    by (simp add: batch_doc_def)
qed








text \<open>
  C10. An address whose name does not begin with \<^verbatim>\<open>sub_\<close> is passed over: the round
  of the loop returns the counter and the document as they were, without looking at the
  instructions, and after the whole scan the address still has its name.
\<close>

theorem rename_objc_stubs_skips_named:
  assumes "getNameAtAddress doc a = Some name" and "\<not> prefix ''sub_'' name"
  shows "rename_one (n, doc) a = Some (Inr (n, doc))
         \<and> (\<forall>count doc'. rename_objc_stubs doc = Some (Inr (count, doc'))
               \<longrightarrow> getNameAtAddress doc' a = Some name)"
proof -
  from assms have "rename_one (n, doc) a = Some (Inr (n, doc))"
    by (simp add: rename_one_def)
  moreover have "getNameAtAddress doc' a = Some name"
    if "rename_objc_stubs doc = Some (Inr (count, doc'))" for count doc'
  proof (cases "getSegmentByName doc ''__TEXT''")
    case None
    with that assms(1) show ?thesis by (simp add: rename_objc_stubs_def)
  next
    case (Some seg)
    with that obtain n' where "rename_loop (0, doc) (getNamedAddresses seg) = Some (Inr (n', doc'))"
      by (auto simp add: rename_objc_stubs_def split: option.splits sum.splits)
    from rename_loop_keeps [OF assms this] show ?thesis .
  qed
  ultimately show ?thesis by blast
qed

theorem rename_objc_stubs_skips_named_witness:
  "getNameAtAddress batch_doc 0x4000 = Some ''main''
   \<and> is_objc_stub batch_doc 0x4000 = Inr True
   \<and> rename_one (0, batch_doc) 0x4000 = Some (Inr (0, batch_doc))
   \<and> (\<exists>doc'. rename_objc_stubs batch_doc = Some (Inr (Some 2, doc'))
             \<and> getNameAtAddress doc' 0x4000 = Some ''main'')"
proof -
  have name: "getNameAtAddress batch_doc 0x4000 = Some ''main''"
    by (simp add: batch_doc_def batch_names_def)
  have np: "\<not> prefix ''sub_'' ''main''" by simp
  have stub: "is_objc_stub batch_doc 0x4000 = Inr True" by code_simp
  from rename_loop_result [OF batch_hyps(3,4,5,6), of 0] batch_hyps(1)
  have scan: "rename_objc_stubs batch_doc =
       Some (Inr (Some 2, batch_doc\<lparr>getNameAtAddress := renamed batch_doc [0x1000, 0x2000, 0x3000, 0x4000]\<rparr>))"
    by (simp add: rename_objc_stubs_def batch_hyps(2) batch_resolved)
  from rename_objc_stubs_skips_named [OF name np, of 0] scan name stub show ?thesis by auto
qed

end
